theory Spec2Isabelle
  imports Complex_Main
begin

section \<open>The SWAG example plugin: dataset reader and scoring model\<close>

text \<open>
  A shallow embedding of \<^verbatim>\<open>swagexample/readers.py\<close> and \<^verbatim>\<open>swagexample/models.py\<close>.
  The two classes are glue between the csv module of the standard library, the tensor
  library and the framework's collaborators (tokenizer, embedder, encoders, accuracy
  metric). The collaborators a caller injects are parameters of the model; the library
  functions the code calls are written out with their documented behaviour, over
  tensors stored row-major with real entries (the idealisation of the library's floats).
\<close>

subsection \<open>Errors\<close>

text \<open>
  The exceptions the code and its libraries raise. A configuration error carries its
  message; the numbers the framework formats into the message are left out. Every
  refusal of the tensor library is the one runtime error: the class it raises for a
  shape or an index it refuses differs between its releases.
\<close>

datatype error =
    ConfigurationError string
  | KeyError string
  | TypeError
  | RuntimeError

subsection \<open>Tensors and the tensor operations the model calls\<close>

text \<open>
  A tensor is its shape and its entries in row-major order; a tensor of the library has
  as many entries as its shape says.
\<close>

record 'a tensor =
  shape :: "nat list"
  entries :: "'a list"

definition numel :: "'a tensor \<Rightarrow> nat" where
  "numel t = prod_list (shape t)"

text \<open>The \<open>i\<close>-th block of \<open>n\<close> consecutive entries of a row-major store.\<close>

definition block :: "nat \<Rightarrow> nat \<Rightarrow> 'a list \<Rightarrow> 'a list" where
  "block n i xs = take n (drop (i * n) xs)"

text \<open>
  \<^verbatim>\<open>torch.stack(ts, dim=-2)\<close>: the tensors must have one common shape with at
  least one axis; the new axis goes before the last one.
\<close>

definition stack_m2 :: "'a tensor list \<Rightarrow> error + 'a tensor" where
  "stack_m2 ts =
     (case ts of
        [] \<Rightarrow> Inl RuntimeError
      | t # rest \<Rightarrow>
          if \<not> list_all (\<lambda>u. shape u = shape t) rest then Inl RuntimeError
          else (case rev (shape t) of
                  [] \<Rightarrow> Inl RuntimeError
                | d # lead \<Rightarrow>
                    Inr \<lparr>shape = rev lead @ [length ts, d],
                         entries = concat (map (\<lambda>i. concat (map (\<lambda>u. block d i (entries u)) ts))
                                            [0..<prod_list (rev lead)])\<rparr>))"

text \<open>\<^verbatim>\<open>t.unsqueeze(-1)\<close>: a new last axis of size one.\<close>

definition unsqueeze_last :: "'a tensor \<Rightarrow> 'a tensor" where
  "unsqueeze_last t = t\<lparr>shape := shape t @ [1]\<rparr>"

text \<open>
  \<^verbatim>\<open>a.bmm(b)\<close>: batched matrix product of a \<open>(b, n, m)\<close> tensor with a
  \<open>(b, m, p)\<close> tensor; any other pair of shapes is refused.
\<close>

fun bmm_shape :: "nat list \<Rightarrow> nat list \<Rightarrow> nat list option" where
  "bmm_shape [b, n, m] [b', m', p] = (if b = b' \<and> m = m' then Some [b, n, p] else None)"
| "bmm_shape _ _ = None"

definition bmm_entry :: "real tensor \<Rightarrow> real tensor \<Rightarrow> nat \<Rightarrow> nat \<Rightarrow> nat \<Rightarrow> nat \<Rightarrow> nat \<Rightarrow> nat \<Rightarrow> real" where
  "bmm_entry x y n m p b i j =
     (\<Sum>k\<leftarrow>[0..<m]. entries x ! ((b * n + i) * m + k) * entries y ! ((b * m + k) * p + j))"

definition bmm :: "real tensor \<Rightarrow> real tensor \<Rightarrow> error + real tensor" where
  "bmm x y =
     (case bmm_shape (shape x) (shape y) of
        None \<Rightarrow> Inl RuntimeError
      | Some s \<Rightarrow>
          (let b = s ! 0; n = s ! 1; p = s ! 2; m = shape x ! 2
           in Inr \<lparr>shape = s,
                   entries = concat (map (\<lambda>bi. concat (map (\<lambda>i. map (\<lambda>j. bmm_entry x y n m p bi i j) [0..<p])
                                                            [0..<n]))
                                      [0..<b])\<rparr>))"

text \<open>\<^verbatim>\<open>t.squeeze()\<close> with no axis given: every axis of size one is removed.\<close>

definition squeeze :: "'a tensor \<Rightarrow> 'a tensor" where
  "squeeze t = t\<lparr>shape := filter (\<lambda>d. d \<noteq> 1) (shape t)\<rparr>"

text \<open>\<^verbatim>\<open>torch.nn.functional.softmax(t, dim=-1)\<close>.\<close>

definition softmax_vec :: "real list \<Rightarrow> real list" where
  "softmax_vec xs = map (\<lambda>x. exp x / sum_list (map exp xs)) xs"

definition softmax_last :: "real tensor \<Rightarrow> real tensor" where
  "softmax_last t =
     (case rev (shape t) of
        [] \<Rightarrow> t\<lparr>entries := map (\<lambda>_. 1) (entries t)\<rparr>
      | d # lead \<Rightarrow>
          t\<lparr>entries := concat (map (\<lambda>i. softmax_vec (block d i (entries t)))
                                 [0..<prod_list (rev lead)])\<rparr>)"

text \<open>\<^verbatim>\<open>label.long().view(-1)\<close>: the same entries as one axis.\<close>

definition view_flat :: "'a tensor \<Rightarrow> 'a tensor" where
  "view_flat t = \<lparr>shape = [numel t], entries = entries t\<rparr>"

text \<open>
  \<^verbatim>\<open>torch.nn.CrossEntropyLoss()\<close> with its defaults (mean reduction,
  \<^verbatim>\<open>ignore_index=-100\<close>), on the inputs \<open>forward\<close> can give it: scores of
  shape \<open>(N, C)\<close> and a target of shape \<open>(N)\<close> whose entries are class indices
  or the ignored index. Scores with one axis only and a target with one axis are
  refused, as are a target of another length and a class index out of range. The mean
  over no target at all is not a number.
\<close>

datatype scalar = Finite real | NaN

definition nll_row :: "real list \<Rightarrow> int \<Rightarrow> real" where
  "nll_row row c = - ln (softmax_vec row ! nat c)"

definition xentropy :: "real tensor \<Rightarrow> int tensor \<Rightarrow> error + scalar" where
  "xentropy x t =
     (case shape x of
        [n, c] \<Rightarrow>
          if shape t \<noteq> [n] then Inl RuntimeError
          else if list_ex (\<lambda>g. g \<noteq> - 100 \<and> (g < 0 \<or> int c \<le> g)) (take n (entries t))
          then Inl RuntimeError
          else (let kept = filter (\<lambda>i. entries t ! i \<noteq> - 100) [0..<n]
                in if kept = [] then Inr NaN
                   else Inr (Finite ((\<Sum>i\<leftarrow>kept. nll_row (block c i (entries x)) (entries t ! i))
                                     / real (length kept))))
      | _ \<Rightarrow> Inl RuntimeError)"

subsection \<open>The framework's accuracy metric\<close>

text \<open>
  \<^verbatim>\<open>CategoricalAccuracy\<close> keeps two counters. A call checks that the gold labels
  have one axis less than the predictions and that no label reaches the number of
  classes, then adds the number of labels to the total and the number of rows whose
  largest score stands at the label's index to the correct count (the first index,
  where several scores are the largest). The value reported before any label was
  counted depends on the release of the framework, a division by zero in the early
  ones; it is taken as zero here, as the later releases report it.
\<close>

record categorical_accuracy =
  correct_count :: nat
  total_count :: nat

definition argmax :: "real list \<Rightarrow> nat" where
  "argmax xs = (case filter (\<lambda>i. xs ! i = Max (set xs)) [0..<length xs] of [] \<Rightarrow> 0 | i # _ \<Rightarrow> i)"

definition accuracy_call ::
  "categorical_accuracy \<Rightarrow> real tensor \<Rightarrow> int tensor \<Rightarrow> error + categorical_accuracy" where
  "accuracy_call acc predictions gold_labels =
     (case rev (shape predictions) of
        [] \<Rightarrow> Inl RuntimeError
      | num_classes # lead \<Rightarrow>
          if length (shape gold_labels) \<noteq> length lead
          then Inl (ConfigurationError ''gold_labels must have dimension == predictions.size() - 1'')
          else if list_ex (\<lambda>g. int num_classes \<le> g) (entries gold_labels)
          then Inl (ConfigurationError ''A gold label passed to Categorical Accuracy contains an id >= num_classes'')
          else Inr \<lparr>correct_count = correct_count acc
                       + length (filter (\<lambda>i. int (argmax (block num_classes i (entries predictions)))
                                                = entries gold_labels ! i)
                                   [0..<numel gold_labels]),
                     total_count = total_count acc + numel gold_labels\<rparr>)"

definition accuracy_reset :: "categorical_accuracy \<Rightarrow> categorical_accuracy" where
  "accuracy_reset acc = \<lparr>correct_count = 0, total_count = 0\<rparr>"

definition get_metric :: "categorical_accuracy \<Rightarrow> bool \<Rightarrow> real \<times> categorical_accuracy" where
  "get_metric acc reset =
     (let accuracy = (if total_count acc > 0
                      then real (correct_count acc) / real (total_count acc) else 0)
      in (accuracy, if reset then accuracy_reset acc else acc))"

subsection \<open>The collaborators of the model\<close>

record 'f text_field_embedder =
  tfe_output_dim :: nat
  tfe_apply :: "'f \<Rightarrow> real tensor"

record 'm seq2vec_encoder =
  enc_input_dim :: nat
  enc_output_dim :: nat
  enc_apply :: "real tensor \<Rightarrow> 'm \<Rightarrow> real tensor"

subsection \<open>\<^verbatim>\<open>SWAGExampleModel\<close>\<close>

record ('v, 'r, 'f, 'm, 's) swag_model =
  vocab :: 'v
  regularizer :: "'r option"
  text_field_embedder :: "'f text_field_embedder"
  startphrase_encoder :: "'m seq2vec_encoder"
  ending_encoder :: "'m seq2vec_encoder"
  similarity :: 's
  accuracy :: categorical_accuracy

definition check_dimensions_match :: "nat \<Rightarrow> nat \<Rightarrow> string \<Rightarrow> string \<Rightarrow> error + unit" where
  "check_dimensions_match dimension_1 dimension_2 dim_1_name dim_2_name =
     (if dimension_1 \<noteq> dimension_2
      then Inl (ConfigurationError (dim_1_name @ '' must match '' @ dim_2_name))
      else Inr ())"

text \<open>
  \<^verbatim>\<open>__init__\<close>: the three checks in the order of the source, then the attributes,
  a fresh accuracy metric, and the initializer applied to the instance.
\<close>

definition init ::
  "'v \<Rightarrow> 'f text_field_embedder \<Rightarrow> 'm seq2vec_encoder \<Rightarrow> 'm seq2vec_encoder \<Rightarrow> 's
   \<Rightarrow> (('v, 'r, 'f, 'm, 's) swag_model \<Rightarrow> ('v, 'r, 'f, 'm, 's) swag_model) \<Rightarrow> 'r option
   \<Rightarrow> error + ('v, 'r, 'f, 'm, 's) swag_model" where
  "init vocab0 text_field_embedder0 startphrase_encoder0 ending_encoder0 similarity0
        initializer regularizer0 =
     (case check_dimensions_match (tfe_output_dim text_field_embedder0)
             (enc_input_dim startphrase_encoder0)
             ''text field embedding dim'' ''startphrase encoder input dim'' of
        Inl e \<Rightarrow> Inl e
      | Inr _ \<Rightarrow>
     (case check_dimensions_match (tfe_output_dim text_field_embedder0)
             (enc_input_dim ending_encoder0)
             ''text field embedding dim'' ''ending encoder input dim'' of
        Inl e \<Rightarrow> Inl e
      | Inr _ \<Rightarrow>
     (case check_dimensions_match (enc_output_dim startphrase_encoder0)
             (enc_output_dim ending_encoder0)
             ''startphrase embedding dim'' ''ending embedding dim'' of
        Inl e \<Rightarrow> Inl e
      | Inr _ \<Rightarrow>
          Inr (initializer
                 \<lparr>vocab = vocab0, regularizer = regularizer0,
                  text_field_embedder = text_field_embedder0,
                  startphrase_encoder = startphrase_encoder0,
                  ending_encoder = ending_encoder0,
                  similarity = similarity0,
                  accuracy = \<lparr>correct_count = 0, total_count = 0\<rparr>\<rparr>))))"

text \<open>
  The values of the dictionary \<open>forward\<close> returns: a tensor, the scalar loss, or
  Python's \<^verbatim>\<open>None\<close>.
\<close>

datatype output_value = TensorValue "real tensor" | LossValue scalar | NoneValue

text \<open>
  The logits of \<open>forward\<close>: the five fields embedded by the one embedder, the
  startphrase encoded by its encoder and each ending by the ending encoder, the ending
  vectors stacked, multiplied with the startphrase vector, and the result squeezed.
  \<open>get_text_field_mask\<close> is the framework's function from a field to its mask.
\<close>

definition forward_logits ::
  "('f \<Rightarrow> 'm) \<Rightarrow> ('v, 'r, 'f, 'm, 's) swag_model \<Rightarrow> 'f \<Rightarrow> 'f \<Rightarrow> 'f \<Rightarrow> 'f \<Rightarrow> 'f
   \<Rightarrow> error + real tensor" where
  "forward_logits get_text_field_mask self startphrase ending0 ending1 ending2 ending3 =
     (let startphrase_initial = tfe_apply (text_field_embedder self) startphrase;
          ending0_initial = tfe_apply (text_field_embedder self) ending0;
          ending1_initial = tfe_apply (text_field_embedder self) ending1;
          ending2_initial = tfe_apply (text_field_embedder self) ending2;
          ending3_initial = tfe_apply (text_field_embedder self) ending3;
          startphrase_embedding = enc_apply (startphrase_encoder self) startphrase_initial
                                    (get_text_field_mask startphrase);
          ending0_embedding = enc_apply (ending_encoder self) ending0_initial
                                (get_text_field_mask ending0);
          ending1_embedding = enc_apply (ending_encoder self) ending1_initial
                                (get_text_field_mask ending1);
          ending2_embedding = enc_apply (ending_encoder self) ending2_initial
                                (get_text_field_mask ending2);
          ending3_embedding = enc_apply (ending_encoder self) ending3_initial
                                (get_text_field_mask ending3)
      in case stack_m2 [ending0_embedding, ending1_embedding, ending2_embedding,
                        ending3_embedding] of
           Inl e \<Rightarrow> Inl e
         | Inr stacked \<Rightarrow>
             (case bmm stacked (unsqueeze_last startphrase_embedding) of
                Inl e \<Rightarrow> Inl e
              | Inr product \<Rightarrow> Inr (squeeze product)))"

text \<open>
  \<open>forward\<close> returns the output dictionary and the instance after the call; a raise
  leaves the instance as it was.
\<close>

definition forward ::
  "('f \<Rightarrow> 'm) \<Rightarrow> ('v, 'r, 'f, 'm, 's) swag_model \<Rightarrow> 'f \<Rightarrow> 'f \<Rightarrow> 'f \<Rightarrow> 'f \<Rightarrow> 'f
   \<Rightarrow> int tensor option
   \<Rightarrow> error + ((string \<rightharpoonup> output_value) \<times> ('v, 'r, 'f, 'm, 's) swag_model)" where
  "forward get_text_field_mask self startphrase ending0 ending1 ending2 ending3 label =
     (case forward_logits get_text_field_mask self startphrase ending0 ending1 ending2 ending3 of
        Inl e \<Rightarrow> Inl e
      | Inr logits \<Rightarrow>
          (let probabilities = softmax_last logits
           in case label of
                None \<Rightarrow>
                  Inr ([''logits'' \<mapsto> TensorValue logits,
                        ''probabilities'' \<mapsto> TensorValue probabilities,
                        ''loss'' \<mapsto> NoneValue], self)
              | Some l \<Rightarrow>
                  (case xentropy logits (view_flat l) of
                     Inl e \<Rightarrow> Inl e
                   | Inr loss \<Rightarrow>
                       (case accuracy_call (accuracy self) logits l of
                          Inl e \<Rightarrow> Inl e
                        | Inr acc \<Rightarrow>
                            Inr ([''logits'' \<mapsto> TensorValue logits,
                                  ''probabilities'' \<mapsto> TensorValue probabilities,
                                  ''loss'' \<mapsto> LossValue loss],
                                 self\<lparr>accuracy := acc\<rparr>)))))"

definition get_metrics ::
  "('v, 'r, 'f, 'm, 's) swag_model \<Rightarrow> bool
   \<Rightarrow> (string \<rightharpoonup> real) \<times> ('v, 'r, 'f, 'm, 's) swag_model" where
  "get_metrics self reset =
     (let (metric, acc) = get_metric (accuracy self) reset
      in ([''accuracy'' \<mapsto> metric], self\<lparr>accuracy := acc\<rparr>))"


subsection \<open>The vectors of a batch\<close>

text \<open>
  The two vectors \<open>forward\<close> multiplies, named: the startphrase vector is the
  startphrase encoder applied to the embedded startphrase, an ending vector is the
  ending encoder applied to the embedded ending, both through the model's one embedder.
  \<open>dot\<close> is the dot product of two vectors.
\<close>

definition startphrase_vector ::
  "('f \<Rightarrow> 'm) \<Rightarrow> ('v, 'r, 'f, 'm, 's) swag_model \<Rightarrow> 'f \<Rightarrow> real tensor" where
  "startphrase_vector get_text_field_mask self startphrase =
     enc_apply (startphrase_encoder self) (tfe_apply (text_field_embedder self) startphrase)
       (get_text_field_mask startphrase)"

definition ending_vector ::
  "('f \<Rightarrow> 'm) \<Rightarrow> ('v, 'r, 'f, 'm, 's) swag_model \<Rightarrow> 'f \<Rightarrow> real tensor" where
  "ending_vector get_text_field_mask self ending =
     enc_apply (ending_encoder self) (tfe_apply (text_field_embedder self) ending)
       (get_text_field_mask ending)"

definition dot :: "real list \<Rightarrow> real list \<Rightarrow> real" where
  "dot xs ys = (\<Sum>(x, y)\<leftarrow>zip xs ys. x * y)"

subsection \<open>A sample model\<close>

text \<open>
  A batch is a list of token-id sequences, padded with zeros. The sample embedder gives
  the token \<open>w\<close> the vector \<open>(w, 1)\<close>; the sample encoder adds the vectors of
  the tokens the mask keeps (a bag of embeddings); the mask keeps the tokens other than
  the padding.
\<close>

definition bag_embedder :: "nat list list text_field_embedder" where
  "bag_embedder =
     \<lparr>tfe_output_dim = 2,
      tfe_apply = (\<lambda>field.
        \<lparr>shape = [length field, (case field of [] \<Rightarrow> 0 | tokens # _ \<Rightarrow> length tokens), 2],
         entries = concat (map (\<lambda>tokens. concat (map (\<lambda>w. [real w, 1]) tokens)) field)\<rparr>)\<rparr>"

definition token_mask :: "nat list list \<Rightarrow> bool list list" where
  "token_mask field = map (map (\<lambda>w. w \<noteq> 0)) field"

definition masked_sum :: "real list \<Rightarrow> bool list \<Rightarrow> nat \<Rightarrow> nat \<Rightarrow> nat \<Rightarrow> real" where
  "masked_sum xs row i d j =
     (\<Sum>k\<leftarrow>[0..<length row]. if row ! k then xs ! ((i * length row + k) * d + j) else 0)"

definition bag_encoder :: "bool list list seq2vec_encoder" where
  "bag_encoder =
     \<lparr>enc_input_dim = 2,
      enc_output_dim = 2,
      enc_apply = (\<lambda>t mask.
        \<lparr>shape = [length mask, 2],
         entries = concat (map (\<lambda>i. map (masked_sum (entries t) (mask ! i) i 2) [0..<2])
                             [0..<length mask])\<rparr>)\<rparr>"

definition bag_model :: "(unit, unit, nat list list, bool list list, string) swag_model" where
  "bag_model =
     \<lparr>vocab = (), regularizer = None, text_field_embedder = bag_embedder,
      startphrase_encoder = bag_encoder, ending_encoder = bag_encoder,
      similarity = ''cosine'',
      accuracy = \<lparr>correct_count = 0, total_count = 0\<rparr>\<rparr>"

subsection \<open>\<^verbatim>\<open>csv.DictReader\<close>\<close>

text \<open>
  The file is given as the rows the csv parser reads from it, each a list of cells. The
  first row holds the field names. A row that is empty is passed over; a row longer than
  the field names keeps its surplus cells as a list under the key \<^verbatim>\<open>None\<close>;
  a shorter row gets \<^verbatim>\<open>None\<close> for every field name it does not reach.
\<close>

datatype csv_value = CsvStr string | CsvNone | CsvList "string list"

type_synonym csv_dict = "string option \<rightharpoonup> csv_value"

definition dict_of_row :: "string list \<Rightarrow> string list \<Rightarrow> csv_dict" where
  "dict_of_row fieldnames row =
     (let d = fold (\<lambda>(k, v) d. d(Some k \<mapsto> CsvStr v)) (zip fieldnames row) Map.empty;
          lf = length fieldnames;
          lr = length row
      in if lf < lr then d(None \<mapsto> CsvList (drop lf row))
         else if lf > lr then fold (\<lambda>key d. d(Some key \<mapsto> CsvNone)) (drop lr fieldnames) d
         else d)"

definition data_rows :: "string list list \<Rightarrow> string list list" where
  "data_rows rows = filter (\<lambda>row. row \<noteq> []) rows"

definition dict_reader :: "string list list \<Rightarrow> csv_dict list" where
  "dict_reader lines =
     (case lines of
        [] \<Rightarrow> []
      | fieldnames # rows \<Rightarrow> map (dict_of_row fieldnames) (data_rows rows))"

text \<open>\<^verbatim>\<open>row[key]\<close> raises on a key the row lacks; \<^verbatim>\<open>row.get(key)\<close> gives \<^verbatim>\<open>None\<close>.\<close>

definition getitem :: "csv_dict \<Rightarrow> string \<Rightarrow> error + csv_value" where
  "getitem row key = (case row (Some key) of None \<Rightarrow> Inl (KeyError key) | Some v \<Rightarrow> Inr v)"

definition dict_get :: "csv_dict \<Rightarrow> string \<Rightarrow> csv_value" where
  "dict_get row key = (case row (Some key) of None \<Rightarrow> CsvNone | Some v \<Rightarrow> v)"

subsection \<open>\<^verbatim>\<open>SWAGDatasetReader\<close>\<close>

text \<open>
  The tokenizer is the reader's collaborator: a function from a text to its tokens. Its
  contract covers texts only; handed \<^verbatim>\<open>None\<close> (the cell of a row that is too
  short) the call raises a type error, as the default word tokenizer does. A label
  field takes a text as its label and refuses anything else.
\<close>

datatype ('tok, 'ix) field = TextField "'tok list" 'ix | LabelField string

type_synonym ('tok, 'ix) example = "string \<rightharpoonup> ('tok, 'ix) field"

fun tokenize :: "(string \<Rightarrow> 'tok list) \<Rightarrow> csv_value \<Rightarrow> error + 'tok list" where
  "tokenize tokenizer (CsvStr text) = Inr (tokenizer text)"
| "tokenize tokenizer _ = Inl TypeError"

fun label_field :: "csv_value \<Rightarrow> error + ('tok, 'ix) field" where
  "label_field (CsvStr label) = Inr (LabelField label)"
| "label_field _ =
     Inl (ConfigurationError ''LabelFields must be passed a string label if skip_indexing=False'')"

definition bind_error :: "error + 'a \<Rightarrow> ('a \<Rightarrow> error + 'b) \<Rightarrow> error + 'b" where
  "bind_error r f = (case r of Inl e \<Rightarrow> Inl e | Inr x \<Rightarrow> f x)"

definition text_to_instance ::
  "(string \<Rightarrow> 'tok list) \<Rightarrow> 'ix \<Rightarrow> csv_value \<Rightarrow> csv_value \<Rightarrow> csv_value \<Rightarrow> csv_value \<Rightarrow> csv_value
   \<Rightarrow> csv_value \<Rightarrow> error + ('tok, 'ix) example" where
  "text_to_instance tokenizer token_indexers startphrase ending0 ending1 ending2 ending3 label =
     bind_error (tokenize tokenizer startphrase) (\<lambda>t.
     bind_error (tokenize tokenizer ending0) (\<lambda>t0.
     bind_error (tokenize tokenizer ending1) (\<lambda>t1.
     bind_error (tokenize tokenizer ending2) (\<lambda>t2.
     bind_error (tokenize tokenizer ending3) (\<lambda>t3.
       (let fields = [''startphrase'' \<mapsto> TextField t token_indexers,
                      ''ending0'' \<mapsto> TextField t0 token_indexers,
                      ''ending1'' \<mapsto> TextField t1 token_indexers,
                      ''ending2'' \<mapsto> TextField t2 token_indexers,
                      ''ending3'' \<mapsto> TextField t3 token_indexers]
        in if label \<noteq> CsvNone
           then bind_error (label_field label) (\<lambda>l. Inr (fields(''label'' \<mapsto> l)))
           else Inr fields))))))"

text \<open>One step of the loop of \<^verbatim>\<open>_read\<close>: the five cells looked up, then the label.\<close>

definition instance_of_row ::
  "(string \<Rightarrow> 'tok list) \<Rightarrow> 'ix \<Rightarrow> csv_dict \<Rightarrow> error + ('tok, 'ix) example" where
  "instance_of_row tokenizer token_indexers row =
     bind_error (getitem row ''startphrase'') (\<lambda>startphrase.
     bind_error (getitem row ''ending0'') (\<lambda>ending0.
     bind_error (getitem row ''ending1'') (\<lambda>ending1.
     bind_error (getitem row ''ending2'') (\<lambda>ending2.
     bind_error (getitem row ''ending3'') (\<lambda>ending3.
       text_to_instance tokenizer token_indexers startphrase ending0 ending1 ending2 ending3
         (dict_get row ''label''))))))"

text \<open>
  \<^verbatim>\<open>_read\<close> is a generator: it yields one instance per row until a row raises.
  The result is what was yielded, and the error that ended the iteration, if any.
\<close>

fun read_rows ::
  "(string \<Rightarrow> 'tok list) \<Rightarrow> 'ix \<Rightarrow> csv_dict list \<Rightarrow> ('tok, 'ix) example list \<times> error option" where
  "read_rows tokenizer token_indexers [] = ([], None)"
| "read_rows tokenizer token_indexers (row # rows) =
     (case instance_of_row tokenizer token_indexers row of
        Inl e \<Rightarrow> ([], Some e)
      | Inr i \<Rightarrow> (case read_rows tokenizer token_indexers rows of
                   (yielded, e) \<Rightarrow> (i # yielded, e)))"

definition read ::
  "(string \<Rightarrow> 'tok list) \<Rightarrow> 'ix \<Rightarrow> string list list \<Rightarrow> ('tok, 'ix) example list \<times> error option" where
  "read tokenizer token_indexers lines = read_rows tokenizer token_indexers (dict_reader lines)"

definition text_columns :: "string list" where
  "text_columns = [''startphrase'', ''ending0'', ''ending1'', ''ending2'', ''ending3'']"

definition text_cell :: "csv_dict \<Rightarrow> string \<Rightarrow> bool" where
  "text_cell row key = (case row (Some key) of Some (CsvStr text) \<Rightarrow> True | _ \<Rightarrow> False)"

definition text_cells_present :: "csv_dict \<Rightarrow> bool" where
  "text_cells_present row = list_all (text_cell row) text_columns"

subsection \<open>A sample file\<close>

text \<open>
  A tokenizer that makes one token of every character, and a file of five rows under
  the six field names: a row with the label \<open>2\<close>, a blank row, a row whose label
  cell is empty, a row that ends before the label cell, and a row whose label is no
  number.
\<close>

definition character_tokenizer :: "string \<Rightarrow> string list" where
  "character_tokenizer text = map (\<lambda>c. [c]) text"

definition example_header :: "string list" where
  "example_header = [''startphrase'', ''ending0'', ''ending1'', ''ending2'', ''ending3'', ''label'']"

definition example_rows :: "string list list" where
  "example_rows =
     [[''A man is sitting.'', ''He stands up.'', ''He flies away.'', ''He eats soup.'',
       ''He sleeps.'', ''2''],
      [],
      [''She waves.'', ''a'', ''b'', ''c'', ''d'', ''''],
      [''He nods.'', ''a'', ''b'', ''c'', ''d''],
      [''They sing.'', ''a'', ''b'', ''c'', ''d'', ''seven'']]"

section \<open>Properties\<close>

subsection \<open>Construction\<close>

lemma check_dimensions_match_Inr:
  "(check_dimensions_match a b n1 n2 = Inr u) = (a = b)"
  by (simp add: check_dimensions_match_def)

lemma check_dimensions_match_Inl:
  "(\<exists>e. check_dimensions_match a b n1 n2 = Inl e) = (a \<noteq> b)"
  by (simp add: check_dimensions_match_def)

text \<open>
  C4. Constructing the model succeeds exactly when the embedder's output dimension is
  the input dimension of the startphrase encoder and of the ending encoder and the two
  encoders have the same output dimension; otherwise the constructor raises a
  configuration error and no model exists on which a forward pass could run.
\<close>

theorem init_succeeds_iff_dimensions_match:
  "(\<exists>self. init v tfe sp_enc end_enc sim initializer reg = Inr self)
     = (tfe_output_dim tfe = enc_input_dim sp_enc
        \<and> tfe_output_dim tfe = enc_input_dim end_enc
        \<and> enc_output_dim sp_enc = enc_output_dim end_enc)
   \<and> (\<exists>msg. init v tfe sp_enc end_enc sim initializer reg = Inl (ConfigurationError msg))
     = (\<not> (tfe_output_dim tfe = enc_input_dim sp_enc
           \<and> tfe_output_dim tfe = enc_input_dim end_enc
           \<and> enc_output_dim sp_enc = enc_output_dim end_enc))"
  by (auto simp: init_def check_dimensions_match_def)

subsection \<open>The dictionary of a row\<close>

lemma fold_zip_lookup:
  "fold (\<lambda>(k, v) d. d(Some k \<mapsto> CsvStr v)) kvs d0 (Some key) =
     (case map_of (rev kvs) key of Some v \<Rightarrow> Some (CsvStr v) | None \<Rightarrow> d0 (Some key))"
  by (induction kvs arbitrary: d0) (auto simp: map_add_def split: option.splits)

lemma fold_zip_lookup_None:
  "fold (\<lambda>(k, v) d. d(Some k \<mapsto> CsvStr v)) kvs d0 None = d0 None"
  by (induction kvs arbitrary: d0) auto

lemma fold_restval_lookup:
  "fold (\<lambda>key d. d(Some key \<mapsto> CsvNone)) ks d (Some key) =
     (if key \<in> set ks then Some CsvNone else d (Some key))"
  by (induction ks arbitrary: d) auto

lemma dict_of_row_lookup:
  "dict_of_row fieldnames row (Some key) =
     (if key \<in> set (drop (length row) fieldnames) then Some CsvNone
      else map_option CsvStr (map_of (rev (zip fieldnames row)) key))"
  by (auto simp: dict_of_row_def Let_def fold_zip_lookup fold_restval_lookup
           split: option.splits)


lemma dict_of_row_no_list: "dict_of_row fieldnames row (Some key) \<noteq> Some (CsvList l)"
  by (auto simp: dict_of_row_lookup)



lemma text_cells_presentD:
  assumes "text_cells_present row"
  obtains s e0 e1 e2 e3 where
    "row (Some ''startphrase'') = Some (CsvStr s)"
    "row (Some ''ending0'') = Some (CsvStr e0)"
    "row (Some ''ending1'') = Some (CsvStr e1)"
    "row (Some ''ending2'') = Some (CsvStr e2)"
    "row (Some ''ending3'') = Some (CsvStr e3)"
  using assms
  by (auto simp: text_cells_present_def text_columns_def text_cell_def
           split: option.splits csv_value.splits)

lemma instance_of_row_texts:
  assumes "row (Some ''startphrase'') = Some (CsvStr s)"
    and "row (Some ''ending0'') = Some (CsvStr e0)"
    and "row (Some ''ending1'') = Some (CsvStr e1)"
    and "row (Some ''ending2'') = Some (CsvStr e2)"
    and "row (Some ''ending3'') = Some (CsvStr e3)"
  shows "instance_of_row tk ix row =
     (case dict_get row ''label'' of
        CsvStr l \<Rightarrow>
          Inr [''startphrase'' \<mapsto> TextField (tk s) ix, ''ending0'' \<mapsto> TextField (tk e0) ix,
               ''ending1'' \<mapsto> TextField (tk e1) ix, ''ending2'' \<mapsto> TextField (tk e2) ix,
               ''ending3'' \<mapsto> TextField (tk e3) ix, ''label'' \<mapsto> LabelField l]
      | CsvNone \<Rightarrow>
          Inr [''startphrase'' \<mapsto> TextField (tk s) ix, ''ending0'' \<mapsto> TextField (tk e0) ix,
               ''ending1'' \<mapsto> TextField (tk e1) ix, ''ending2'' \<mapsto> TextField (tk e2) ix,
               ''ending3'' \<mapsto> TextField (tk e3) ix]
      | CsvList x \<Rightarrow>
          Inl (ConfigurationError
                 ''LabelFields must be passed a string label if skip_indexing=False''))"
  using assms
  by (simp add: instance_of_row_def getitem_def text_to_instance_def bind_error_def
           split: csv_value.splits)

lemma instance_of_row_label:
  assumes "text_cells_present (dict_of_row header row)"
  shows "\<exists>inst. instance_of_row tk ix (dict_of_row header row) = Inr inst
           \<and> inst ''label'' =
               (case dict_of_row header row (Some ''label'') of
                  Some (CsvStr l) \<Rightarrow> Some (LabelField l) | _ \<Rightarrow> None)"
proof -
  from assms obtain s e0 e1 e2 e3 where cells:
    "dict_of_row header row (Some ''startphrase'') = Some (CsvStr s)"
    "dict_of_row header row (Some ''ending0'') = Some (CsvStr e0)"
    "dict_of_row header row (Some ''ending1'') = Some (CsvStr e1)"
    "dict_of_row header row (Some ''ending2'') = Some (CsvStr e2)"
    "dict_of_row header row (Some ''ending3'') = Some (CsvStr e3)"
    by (rule text_cells_presentD)
  show ?thesis
  proof (cases "dict_of_row header row (Some ''label'')")
    case None
    then show ?thesis
      by (simp add: instance_of_row_texts [OF cells] dict_get_def)
  next
    case (Some v)
    then show ?thesis
      using dict_of_row_no_list [of header row "''label''"]
      by (cases v) (simp_all add: instance_of_row_texts [OF cells] dict_get_def)
  qed
qed



lemma instance_of_row_needs_texts:
  assumes "instance_of_row tk ix row = Inr inst"
  shows "text_cells_present row"
proof -
  have cell: "text_cell row key"
    if "getitem row key = Inr v" "tokenize tk v = Inr ts" for key v ts
    using that by (cases v) (auto simp: getitem_def text_cell_def split: option.splits)
  from assms show ?thesis
    by (auto simp: instance_of_row_def text_to_instance_def bind_error_def
          text_cells_present_def text_columns_def Let_def
          split: sum.splits intro: cell)
qed

lemma read_rows_all:
  assumes "\<forall>d\<in>set ds. \<exists>inst. instance_of_row tk ix d = Inr inst"
  shows "\<exists>yielded. read_rows tk ix ds = (yielded, None) \<and> length yielded = length ds
           \<and> (\<forall>k<length ds. instance_of_row tk ix (ds ! k) = Inr (yielded ! k))"
  using assms
proof (induction ds)
  case Nil
  then show ?case by simp
next
  case (Cons d ds)
  from Cons.prems obtain inst where inst: "instance_of_row tk ix d = Inr inst"
    by auto
  from Cons obtain yielded where y: "read_rows tk ix ds = (yielded, None)"
      "length yielded = length ds"
      "\<forall>k<length ds. instance_of_row tk ix (ds ! k) = Inr (yielded ! k)"
    by auto
  have "\<forall>k<length (d # ds). instance_of_row tk ix ((d # ds) ! k) = Inr ((inst # yielded) ! k)"
    using inst y(3) by (auto simp: nth_Cons split: nat.splits)
  with inst y(1,2) show ?case by simp
qed

lemma rows_with_texts_give_examples:
  assumes "list_all (\<lambda>row. text_cells_present (dict_of_row header row)) (data_rows rows)"
  shows "\<forall>d\<in>set (dict_reader (header # rows)). \<exists>inst. instance_of_row tk ix d = Inr inst"
  using assms instance_of_row_label [of header _ tk ix]
  by (auto simp: list_all_iff dict_reader_def)

lemma read_rows_without_error:
  assumes "read_rows tk ix ds = (yielded, None)"
  shows "\<forall>d\<in>set ds. \<exists>inst. instance_of_row tk ix d = Inr inst"
  using assms
  by (induction ds arbitrary: yielded) (auto split: sum.splits prod.splits)

lemma read_without_error_needs_texts:
  assumes "read tk ix (header # rows) = (yielded, None)"
  shows "list_all (\<lambda>row. text_cells_present (dict_of_row header row)) (data_rows rows)"
  using read_rows_without_error [OF assms [unfolded read_def]]
  by (auto simp: list_all_iff dict_reader_def dest: instance_of_row_needs_texts)

subsection \<open>The sample file\<close>

lemma example_data_rows:
  "data_rows example_rows =
     [[''A man is sitting.'', ''He stands up.'', ''He flies away.'', ''He eats soup.'',
       ''He sleeps.'', ''2''],
      [''She waves.'', ''a'', ''b'', ''c'', ''d'', ''''],
      [''He nods.'', ''a'', ''b'', ''c'', ''d''],
      [''They sing.'', ''a'', ''b'', ''c'', ''d'', ''seven'']]"
  by (simp add: data_rows_def example_rows_def)

lemma example_rows_present:
  "list_all (\<lambda>row. text_cells_present (dict_of_row example_header row)) (data_rows example_rows)"
  by (simp add: example_data_rows example_header_def text_cells_present_def text_columns_def
        text_cell_def dict_of_row_def)


subsection \<open>The reader\<close>

text \<open>
  C2, as the claim states it, fails: the header holds the five columns and the file has
  three data rows, but the second row ends after two cells; the reader yields the
  example of the first row and then raises, where the tokenizer is handed
  \<^verbatim>\<open>None\<close> for the cell the row lacks.
\<close>

theorem short_row_counterexample:
  "length (data_rows
     [[''A man is sitting.'', ''He stands up.'', ''He flies away.'', ''He eats soup.'',
       ''He sleeps.'', ''2''],
      [''Yo'', ''a''],
      [''She waves.'', ''a'', ''b'', ''c'', ''d'', ''0'']]) = 3
   \<and> length (fst (read character_tokenizer ()
        [[''startphrase'', ''ending0'', ''ending1'', ''ending2'', ''ending3'', ''label''],
         [''A man is sitting.'', ''He stands up.'', ''He flies away.'', ''He eats soup.'',
          ''He sleeps.'', ''2''],
         [''Yo'', ''a''],
         [''She waves.'', ''a'', ''b'', ''c'', ''d'', ''0'']])) = 1
   \<and> snd (read character_tokenizer ()
        [[''startphrase'', ''ending0'', ''ending1'', ''ending2'', ''ending3'', ''label''],
         [''A man is sitting.'', ''He stands up.'', ''He flies away.'', ''He eats soup.'',
          ''He sleeps.'', ''2''],
         [''Yo'', ''a''],
         [''She waves.'', ''a'', ''b'', ''c'', ''d'', ''0'']]) = Some TypeError"
  by (simp add: read_def dict_reader_def data_rows_def dict_of_row_def instance_of_row_def
        getitem_def dict_get_def text_to_instance_def bind_error_def)

text \<open>
  C2, amended. For a file whose data rows (the rows after the field names that are not
  blank) each hold a text under each of the five keys startphrase, ending0, ending1,
  ending2 and ending3, the reader yields exactly one example per data row and ends
  without an error: as many examples as data rows, the \<open>k\<close>-th example built from
  the \<open>k\<close>-th data row. (The condition is needed: by
  \<open>read_without_error_needs_texts\<close> the reader ends without an error only then.)
\<close>

theorem read_yields_one_example_per_data_row:
  assumes "list_all (\<lambda>row. text_cells_present (dict_of_row header row)) (data_rows rows)"
  shows "\<exists>yielded. read tk ix (header # rows) = (yielded, None)
           \<and> length yielded = length (data_rows rows)
           \<and> (\<forall>k<length (data_rows rows).
                 instance_of_row tk ix (dict_of_row header (data_rows rows ! k)) = Inr (yielded ! k))"
proof -
  from read_rows_all [OF rows_with_texts_give_examples [OF assms], of tk ix]
  obtain yielded where "read_rows tk ix (dict_reader (header # rows)) = (yielded, None)"
    and "length yielded = length (dict_reader (header # rows))"
    and "\<forall>k<length (dict_reader (header # rows)).
           instance_of_row tk ix (dict_reader (header # rows) ! k) = Inr (yielded ! k)"
    by blast
  then show ?thesis
    by (simp add: read_def dict_reader_def)
qed

theorem read_yields_one_example_per_data_row_witness:
  "list_all (\<lambda>row. text_cells_present (dict_of_row example_header row)) (data_rows example_rows)
   \<and> length (fst (read character_tokenizer () (example_header # example_rows))) = 4
   \<and> snd (read character_tokenizer () (example_header # example_rows)) = None
   \<and> instance_of_row character_tokenizer ()
        (dict_of_row example_header [''She waves.'', ''a'', ''b'', ''c'', ''d'', ''''])
       = Inr (fst (read character_tokenizer () (example_header # example_rows)) ! 1)"
proof -
  have present: "list_all (\<lambda>row. text_cells_present (dict_of_row example_header row))
                   (data_rows example_rows)"
    by (rule example_rows_present)
  from read_yields_one_example_per_data_row [OF present, of character_tokenizer "()"]
  obtain yielded where
    result: "read character_tokenizer () (example_header # example_rows) = (yielded, None)"
    and count: "length yielded = length (data_rows example_rows)"
    and each: "\<forall>k<length (data_rows example_rows).
        instance_of_row character_tokenizer ()
          (dict_of_row example_header (data_rows example_rows ! k)) = Inr (yielded ! k)"
    by blast
  from each [rule_format, of 1]
  have "instance_of_row character_tokenizer ()
          (dict_of_row example_header [''She waves.'', ''a'', ''b'', ''c'', ''d'', ''''])
        = Inr (yielded ! 1)"
    by (simp add: example_data_rows)
  with present result count show ?thesis
    by (simp add: example_data_rows)
qed






subsection \<open>Blocks of a row-major store\<close>

lemma length_concat_blocks:
  "(\<forall>i<m. length (f i) = n) \<Longrightarrow> length (concat (map f [0..<m])) = m * n"
  by (induction m) auto

lemma nth_concat_blocks:
  "(\<forall>i<m. length (f i) = n) \<Longrightarrow> b < m \<Longrightarrow> k < n \<Longrightarrow>
   concat (map f [0..<m]) ! (b * n + k) = f b ! k"
proof (induction m)
  case 0
  then show ?case by simp
next
  case (Suc m)
  have len: "length (concat (map f [0..<m])) = m * n"
    using Suc.prems(1) by (simp add: length_concat_blocks)
  show ?case
  proof (cases "b < m")
    case True
    then have "b * n + k < m * n"
      using Suc.prems(3)
      by (metis Suc_leI add_less_cancel_left less_le_trans mult_Suc mult_le_mono1 add.commute)
    with True Suc show ?thesis
      by (simp add: nth_append len)
  next
    case False
    with Suc.prems(2) have "b = m" by simp
    then show ?thesis
      by (simp add: nth_append len)
  qed
qed

lemma length_block: "(Suc i) * n \<le> length xs \<Longrightarrow> length (block n i xs) = n"
  by (simp add: block_def)

lemma nth_block: "(Suc i) * n \<le> length xs \<Longrightarrow> d < n \<Longrightarrow> block n i xs ! d = xs ! (i * n + d)"
  by (simp add: block_def)

lemma block_eq_map:
  "(Suc i) * n \<le> length xs \<Longrightarrow> block n i xs = map (\<lambda>d. xs ! (i * n + d)) [0..<n]"
  by (rule nth_equalityI) (simp_all add: length_block nth_block)

lemma dot_blocks:
  assumes "(Suc i) * n \<le> length xs" "(Suc i) * n \<le> length ys"
  shows "dot (block n i xs) (block n i ys) = (\<Sum>d\<leftarrow>[0..<n]. xs ! (i * n + d) * ys ! (i * n + d))"
  by (simp add: dot_def block_eq_map [OF assms(1)] block_eq_map [OF assms(2)] zip_map_map
        zip_same_conv_map comp_def)

subsection \<open>The logits as dot products\<close>

lemma stack_m2_four:
  assumes "shape e0 = [B, D]" "shape e1 = [B, D]" "shape e2 = [B, D]" "shape e3 = [B, D]"
  shows "stack_m2 [e0, e1, e2, e3] =
     Inr \<lparr>shape = [B, 4, D],
          entries = concat (map (\<lambda>i. block D i (entries e0) @ block D i (entries e1)
                                       @ block D i (entries e2) @ block D i (entries e3))
                              [0..<B])\<rparr>"
  using assms by (simp add: stack_m2_def)

lemma bmm_column:
  assumes "shape x = [B, n, D]" "shape y = [B, D, 1]"
  shows "bmm x y =
     Inr \<lparr>shape = [B, n, 1],
          entries = concat (map (\<lambda>b. map (\<lambda>i. bmm_entry x y n D 1 b i 0) [0..<n]) [0..<B])\<rparr>"
proof -
  have "concat (map (\<lambda>i. [g i]) xs) = map g xs" for g :: "nat \<Rightarrow> real" and xs
    by (induction xs) auto
  then show ?thesis
    using assms by (simp add: bmm_def)
qed

lemma forward_logits_value:
  assumes "shape (startphrase_vector gm self sp) = [B, D]"
    and "shape (ending_vector gm self e0) = [B, D]"
    and "shape (ending_vector gm self e1) = [B, D]"
    and "shape (ending_vector gm self e2) = [B, D]"
    and "shape (ending_vector gm self e3) = [B, D]"
  shows "forward_logits gm self sp e0 e1 e2 e3 =
     Inr \<lparr>shape = (if B = 1 then [4] else [B, 4]),
          entries = concat (map (\<lambda>b. map (\<lambda>i.
              bmm_entry
                \<lparr>shape = [B, 4, D],
                 entries = concat (map (\<lambda>i. block D i (entries (ending_vector gm self e0))
                                             @ block D i (entries (ending_vector gm self e1))
                                             @ block D i (entries (ending_vector gm self e2))
                                             @ block D i (entries (ending_vector gm self e3)))
                                     [0..<B])\<rparr>
                (unsqueeze_last (startphrase_vector gm self sp)) 4 D 1 b i 0) [0..<4]) [0..<B])\<rparr>"
proof -
  let ?stacked = "\<lparr>shape = [B, 4, D],
                 entries = concat (map (\<lambda>i. block D i (entries (ending_vector gm self e0))
                                             @ block D i (entries (ending_vector gm self e1))
                                             @ block D i (entries (ending_vector gm self e2))
                                             @ block D i (entries (ending_vector gm self e3)))
                                     [0..<B])\<rparr>"
  have s: "stack_m2 [ending_vector gm self e0, ending_vector gm self e1,
                     ending_vector gm self e2, ending_vector gm self e3] = Inr ?stacked"
    by (rule stack_m2_four [OF assms(2-5)])
  have b: "bmm ?stacked (unsqueeze_last (startphrase_vector gm self sp)) =
     Inr \<lparr>shape = [B, 4, 1],
          entries = concat (map (\<lambda>b. map (\<lambda>i. bmm_entry ?stacked
              (unsqueeze_last (startphrase_vector gm self sp)) 4 D 1 b i 0) [0..<4]) [0..<B])\<rparr>"
    by (rule bmm_column) (simp_all add: unsqueeze_last_def assms(1))
  show ?thesis
    unfolding forward_logits_def Let_def
    using s b
    by (simp add: startphrase_vector_def ending_vector_def squeeze_def)
qed

lemma nth_four_blocks:
  assumes "length a0 = D" "length a1 = D" "length a2 = D" "length a3 = D" "k < 4" "d < D"
  shows "(a0 @ a1 @ a2 @ a3) ! (k * D + d) = [a0, a1, a2, a3] ! k ! d"
proof -
  from assms(5) consider "k = 0" | "k = 1" | "k = 2" | "k = 3" by linarith
  then show ?thesis
    using assms(1-4,6) by cases (simp_all add: nth_append)
qed

lemma stacked_entry:
  assumes len: "length (entries e0) = B * D" "length (entries e1) = B * D"
      "length (entries e2) = B * D" "length (entries e3) = B * D"
    and idx: "b < B" "k < 4" "d < D"
  shows "concat (map (\<lambda>i. block D i (entries e0) @ block D i (entries e1)
                              @ block D i (entries e2) @ block D i (entries e3)) [0..<B])
           ! ((b * 4 + k) * D + d)
         = entries ([e0, e1, e2, e3] ! k) ! (b * D + d)"
proof -
  let ?g = "\<lambda>i. block D i (entries e0) @ block D i (entries e1)
                 @ block D i (entries e2) @ block D i (entries e3)"
  have fits: "Suc i * D \<le> B * D" if "i < B" for i
    using that by (simp add: Suc_leI mult_le_mono1 del: mult_Suc)
  have blocks: "\<forall>i<B. length (?g i) = 4 * D"
    using len fits by (simp add: length_block del: mult_Suc)
  have inner: "k * D + d < 4 * D"
  proof -
    have "k * D + d < k * D + D" using idx(3) by simp
    also have "\<dots> = Suc k * D" by simp
    also have "\<dots> \<le> 4 * D" using idx(2) by (intro mult_le_mono1) simp
    finally show ?thesis .
  qed
  have split: "(b * 4 + k) * D + d = b * (4 * D) + (k * D + d)"
    by (simp add: algebra_simps)
  have "concat (map ?g [0..<B]) ! ((b * 4 + k) * D + d) = ?g b ! (k * D + d)"
    unfolding split by (rule nth_concat_blocks [OF blocks idx(1) inner])
  also have "\<dots> = [block D b (entries e0), block D b (entries e1),
                     block D b (entries e2), block D b (entries e3)] ! k ! d"
    using len fits [OF idx(1)] idx
    by (intro nth_four_blocks) (simp_all add: length_block del: mult_Suc)
  also have "\<dots> = block D b (entries ([e0, e1, e2, e3] ! k)) ! d"
  proof -
    from idx(2) consider "k = 0" | "k = 1" | "k = 2" | "k = 3" by linarith
    then show ?thesis by cases simp_all
  qed
  also have "\<dots> = entries ([e0, e1, e2, e3] ! k) ! (b * D + d)"
  proof -
    from idx(2) consider "k = 0" | "k = 1" | "k = 2" | "k = 3" by linarith
    then show ?thesis
      using len fits [OF idx(1)] idx(3)
      by cases (simp_all add: nth_block del: mult_Suc)
  qed
  finally show ?thesis .
qed

lemma bmm_entry_is_dot:
  assumes len: "length (entries s) = B * D" "length (entries e0) = B * D"
      "length (entries e1) = B * D" "length (entries e2) = B * D" "length (entries e3) = B * D"
    and idx: "b < B" "k < 4"
  shows "bmm_entry
           \<lparr>shape = [B, 4, D],
            entries = concat (map (\<lambda>i. block D i (entries e0) @ block D i (entries e1)
                                        @ block D i (entries e2) @ block D i (entries e3))
                                [0..<B])\<rparr>
           (unsqueeze_last s) 4 D 1 b k 0
         = dot (block D b (entries s)) (block D b (entries ([e0, e1, e2, e3] ! k)))"
proof -
  have fits: "Suc b * D \<le> B * D"
    using idx(1) by (simp add: Suc_leI mult_le_mono1 del: mult_Suc)
  have lenk: "length (entries ([e0, e1, e2, e3] ! k)) = B * D"
  proof -
    from idx(2) consider "k = 0" | "k = 1" | "k = 2" | "k = 3" by linarith
    then show ?thesis using len by cases simp_all
  qed
  have "bmm_entry
           \<lparr>shape = [B, 4, D],
            entries = concat (map (\<lambda>i. block D i (entries e0) @ block D i (entries e1)
                                        @ block D i (entries e2) @ block D i (entries e3))
                                [0..<B])\<rparr>
           (unsqueeze_last s) 4 D 1 b k 0
        = (\<Sum>d\<leftarrow>[0..<D]. entries ([e0, e1, e2, e3] ! k) ! (b * D + d) * entries s ! (b * D + d))"
    unfolding bmm_entry_def
    by (rule arg_cong [where f = sum_list], rule map_cong)
       (simp_all add: stacked_entry [OF len(2-5) idx] unsqueeze_last_def)
  also have "\<dots> = (\<Sum>d\<leftarrow>[0..<D]. entries s ! (b * D + d) * entries ([e0, e1, e2, e3] ! k) ! (b * D + d))"
    by (simp add: mult.commute)
  also have "\<dots> = dot (block D b (entries s)) (block D b (entries ([e0, e1, e2, e3] ! k)))"
    using fits len(1) lenk by (simp add: dot_blocks del: mult_Suc)
  finally show ?thesis .
qed

lemma forward_logits_dots:
  assumes shapes: "shape (startphrase_vector gm self sp) = [B, D]"
      "shape (ending_vector gm self e0) = [B, D]"
      "shape (ending_vector gm self e1) = [B, D]"
      "shape (ending_vector gm self e2) = [B, D]"
      "shape (ending_vector gm self e3) = [B, D]"
    and len: "length (entries (startphrase_vector gm self sp)) = B * D"
      "length (entries (ending_vector gm self e0)) = B * D"
      "length (entries (ending_vector gm self e1)) = B * D"
      "length (entries (ending_vector gm self e2)) = B * D"
      "length (entries (ending_vector gm self e3)) = B * D"
  shows "forward_logits gm self sp e0 e1 e2 e3 =
     Inr \<lparr>shape = (if B = 1 then [4] else [B, 4]),
          entries = concat (map (\<lambda>b. map (\<lambda>k.
              dot (block D b (entries (startphrase_vector gm self sp)))
                  (block D b (entries ([ending_vector gm self e0, ending_vector gm self e1,
                                        ending_vector gm self e2, ending_vector gm self e3] ! k))))
              [0..<4]) [0..<B])\<rparr>"
proof -
  have "map (\<lambda>k. bmm_entry
              \<lparr>shape = [B, 4, D],
               entries = concat (map (\<lambda>i. block D i (entries (ending_vector gm self e0))
                                           @ block D i (entries (ending_vector gm self e1))
                                           @ block D i (entries (ending_vector gm self e2))
                                           @ block D i (entries (ending_vector gm self e3)))
                                   [0..<B])\<rparr>
              (unsqueeze_last (startphrase_vector gm self sp)) 4 D 1 b k 0) [0..<4]
        = map (\<lambda>k. dot (block D b (entries (startphrase_vector gm self sp)))
                  (block D b (entries ([ending_vector gm self e0, ending_vector gm self e1,
                                        ending_vector gm self e2, ending_vector gm self e3] ! k))))
            [0..<4]"
    (is "map (?lhs b) [0..<4] = map (?rhs b) [0..<4]") if "b < B" for b
  proof (rule map_cong [OF refl])
    fix k :: nat
    assume "k \<in> set [0..<4]"
    then have "k < 4" by simp
    from bmm_entry_is_dot [OF len that this] show "?lhs b k = ?rhs b k" .
  qed
  then have "map (\<lambda>b. map (?lhs b) [0..<4]) [0..<B] = map (\<lambda>b. map (?rhs b) [0..<4]) [0..<B]"
    by (intro map_cong [OF refl]) simp
  then show ?thesis
    unfolding forward_logits_value [OF shapes] by (simp only:)
qed

subsection \<open>The sample model on a batch of one and a batch of two\<close>

lemmas bag_eval = startphrase_vector_def ending_vector_def bag_model_def bag_encoder_def
  bag_embedder_def token_mask_def masked_sum_def eval_nat_numeral

lemma logits_one:
  "forward_logits token_mask bag_model [[2, 3]] [[3]] [[4]] [[5]] [[6]]
     = Inr \<lparr>shape = [4], entries = [17, 22, 27, 32]\<rparr>"
proof -
  have "forward_logits token_mask bag_model [[2, 3]] [[3]] [[4]] [[5]] [[6]] =
     Inr \<lparr>shape = (if (1::nat) = 1 then [4] else [1, 4]),
          entries = concat (map (\<lambda>b. map (\<lambda>k.
              dot (block 2 b (entries (startphrase_vector token_mask bag_model [[2, 3]])))
                  (block 2 b (entries ([ending_vector token_mask bag_model [[3]],
                                        ending_vector token_mask bag_model [[4]],
                                        ending_vector token_mask bag_model [[5]],
                                        ending_vector token_mask bag_model [[6]]] ! k))))
              [0..<4]) [0..<1])\<rparr>"
    by (rule forward_logits_dots) (simp_all add: bag_eval)
  then show ?thesis
    by (simp add: bag_eval dot_def block_def)
qed

lemma logits_two:
  "forward_logits token_mask bag_model [[2, 3], [4, 0]] [[3], [2]] [[4], [3]] [[5], [4]] [[6], [5]]
     = Inr \<lparr>shape = [2, 4], entries = [17, 22, 27, 32, 9, 13, 17, 21]\<rparr>"
proof -
  have "forward_logits token_mask bag_model [[2, 3], [4, 0]] [[3], [2]] [[4], [3]] [[5], [4]] [[6], [5]] =
     Inr \<lparr>shape = (if (2::nat) = 1 then [4] else [2, 4]),
          entries = concat (map (\<lambda>b. map (\<lambda>k.
              dot (block 2 b (entries (startphrase_vector token_mask bag_model [[2, 3], [4, 0]])))
                  (block 2 b (entries ([ending_vector token_mask bag_model [[3], [2]],
                                        ending_vector token_mask bag_model [[4], [3]],
                                        ending_vector token_mask bag_model [[5], [4]],
                                        ending_vector token_mask bag_model [[6], [5]]] ! k))))
              [0..<4]) [0..<2])\<rparr>"
    by (rule forward_logits_dots) (simp_all add: bag_eval)
  then show ?thesis
    by (simp add: bag_eval dot_def block_def)
qed

lemma forward_two:
  "forward token_mask bag_model [[2, 3], [4, 0]] [[3], [2]] [[4], [3]] [[5], [4]] [[6], [5]]
     (Some \<lparr>shape = [2], entries = [3, 0]\<rparr>)
   = Inr ([''logits'' \<mapsto> TensorValue \<lparr>shape = [2, 4], entries = [17, 22, 27, 32, 9, 13, 17, 21]\<rparr>,
           ''probabilities'' \<mapsto>
              TensorValue (softmax_last \<lparr>shape = [2, 4], entries = [17, 22, 27, 32, 9, 13, 17, 21]\<rparr>),
           ''loss'' \<mapsto>
              LossValue (Finite ((nll_row [17, 22, 27, 32] 3 + nll_row [9, 13, 17, 21] 0) / 2))],
          bag_model\<lparr>accuracy := \<lparr>correct_count = 1, total_count = 2\<rparr>\<rparr>)"
  unfolding forward_def logits_two
  by (simp add: xentropy_def view_flat_def numel_def accuracy_call_def block_def argmax_def
        eval_nat_numeral bag_model_def)

subsection \<open>What a forward pass reads and writes\<close>

lemma forward_logits_accuracy_update:
  "forward_logits gm (self\<lparr>accuracy := a\<rparr>) sp e0 e1 e2 e3 = forward_logits gm self sp e0 e1 e2 e3"
  by (simp add: forward_logits_def)

lemma forward_logits_similarity_update:
  "forward_logits gm (self\<lparr>similarity := s\<rparr>) sp e0 e1 e2 e3 = forward_logits gm self sp e0 e1 e2 e3"
  by (simp add: forward_logits_def)

lemma accuracy_call_counts:
  assumes "accuracy_call acc predictions gold = Inr acc'"
  shows "total_count acc' = total_count acc + numel gold"
    and "correct_count acc \<le> correct_count acc'"
  using assms
  by (auto simp: accuracy_call_def split: list.splits if_splits)

lemma accuracy_call_any_counters:
  assumes "accuracy_call acc predictions gold = Inr acc'"
  shows "\<exists>acc''. accuracy_call other predictions gold = Inr acc''"
  using assms
  by (auto simp: accuracy_call_def split: list.splits if_splits)

lemma forward_dom:
  assumes "forward gm self sp e0 e1 e2 e3 label = Inr (out, self')"
  shows "dom out = {''logits'', ''probabilities'', ''loss''}"
  using assms
  by (auto simp: forward_def Let_def split: sum.splits option.splits if_splits)

lemma forward_ignores_similarity:
  "forward gm (self\<lparr>similarity := s\<rparr>) sp e0 e1 e2 e3 label =
     map_sum id (\<lambda>(out, m). (out, m\<lparr>similarity := s\<rparr>)) (forward gm self sp e0 e1 e2 e3 label)"
  by (simp add: forward_def forward_logits_similarity_update Let_def
           split: sum.splits option.splits)

subsection \<open>Shapes, probabilities and the loss\<close>

text \<open>
  What holds of the outputs, over the reals. With encoders that return one vector per
  example, the probabilities have the shape of the logits and every row of four sums
  to one; the shape is \<open>(B, 4)\<close> unless \<open>B = 1\<close>. For a batch of two or more
  examples with labels among the four choices the loss is the mean of non-negative
  terms and the metric counts the examples of the batch.
\<close>

lemma block_concat_blocks:
  assumes "\<forall>i<m. length (f i) = n" "b < m"
  shows "block n b (concat (map f [0..<m])) = f b"
proof (rule nth_equalityI)
  have total: "length (concat (map f [0..<m])) = m * n"
    by (rule length_concat_blocks [OF assms(1)])
  have fits: "Suc b * n \<le> m * n"
    using assms(2) by (simp add: Suc_leI mult_le_mono1 del: mult_Suc)
  then show len: "length (block n b (concat (map f [0..<m]))) = length (f b)"
    using assms total by (simp add: length_block del: mult_Suc)
  fix k assume "k < length (block n b (concat (map f [0..<m])))"
  with len assms have k: "k < n" by simp
  then show "block n b (concat (map f [0..<m])) ! k = f b ! k"
    using fits total nth_concat_blocks [OF assms k]
    by (simp add: nth_block del: mult_Suc)
qed

lemma softmax_vec_sums_to_one:
  assumes "xs \<noteq> []"
  shows "sum_list (softmax_vec xs) = 1"
proof -
  from assms obtain y ys where xs: "xs = y # ys"
    by (cases xs) auto
  have "0 \<le> sum_list (map exp ys)"
    by (rule sum_list_nonneg) auto
  then have pos: "0 < sum_list (map exp xs)"
    unfolding xs by (simp add: add_pos_nonneg)
  have "(\<Sum>x\<leftarrow>xs. exp x / c) = sum_list (map exp xs) / c" for c :: real
    by (simp add: divide_inverse sum_list_mult_const)
  then have "sum_list (softmax_vec xs) = sum_list (map exp xs) / sum_list (map exp xs)"
    unfolding softmax_vec_def by (simp add: comp_def)
  with pos show ?thesis by simp
qed

lemma softmax_vec_entry:
  assumes "j < length xs"
  shows "0 < softmax_vec xs ! j" and "softmax_vec xs ! j \<le> 1"
proof -
  have nonneg: "0 \<le> sum_list (map exp ys)" for ys :: "real list"
    by (rule sum_list_nonneg) auto
  from assms have mem: "exp (xs ! j) \<in> set (map exp xs)"
    by (auto intro!: image_eqI [of _ _ "xs ! j"])
  have le: "exp (xs ! j) \<le> sum_list (map exp xs)"
    using mem by (intro member_le_sum_list) auto
  then have pos: "0 < sum_list (map exp xs)"
    by (rule less_le_trans [OF exp_gt_zero])
  from assms pos show "0 < softmax_vec xs ! j"
    by (simp add: softmax_vec_def)
  from assms pos le show "softmax_vec xs ! j \<le> 1"
    by (simp add: softmax_vec_def)
qed

lemma nll_row_nonneg:
  assumes "0 \<le> c" "nat c < length row"
  shows "0 \<le> nll_row row c"
  using softmax_vec_entry [OF assms(2)]
  by (simp add: nll_row_def ln_le_zero_iff)

lemma forward_logits_batched:
  assumes "shape (startphrase_vector gm self sp) = [B, D]"
    and "shape (ending_vector gm self e0) = [B, D]"
    and "shape (ending_vector gm self e1) = [B, D]"
    and "shape (ending_vector gm self e2) = [B, D]"
    and "shape (ending_vector gm self e3) = [B, D]"
  obtains logits where "forward_logits gm self sp e0 e1 e2 e3 = Inr logits"
    and "shape logits = (if B = 1 then [4] else [B, 4])"
    and "length (entries logits) = B * 4"
proof -
  have "length (concat (map (\<lambda>b. map (g b) [0..<4]) [0..<B])) = B * 4" for g :: "nat \<Rightarrow> nat \<Rightarrow> real"
    by (rule length_concat_blocks) simp
  with forward_logits_value [OF assms] that show ?thesis
    by simp
qed

lemma softmax_last_rows:
  assumes "shape logits = (if B = 1 then [4] else [B, 4])"
    and "length (entries logits) = B * 4"
  shows "shape (softmax_last logits) = shape logits"
    and "\<forall>b<B. block 4 b (entries (softmax_last logits)) = softmax_vec (block 4 b (entries logits))"
proof -
  have rows: "entries (softmax_last logits)
              = concat (map (\<lambda>i. softmax_vec (block 4 i (entries logits))) [0..<B])"
    using assms(1) by (cases "B = 1") (simp_all add: softmax_last_def)
  have fits: "Suc i * 4 \<le> B * 4" if "i < B" for i
    using that by simp
  have len: "\<forall>i<B. length (softmax_vec (block 4 i (entries logits))) = 4"
    using assms(2) fits by (simp add: softmax_vec_def length_block del: mult_Suc)
  show "shape (softmax_last logits) = shape logits"
    using assms(1) by (cases "B = 1") (simp_all add: softmax_last_def)
  show "\<forall>b<B. block 4 b (entries (softmax_last logits)) = softmax_vec (block 4 b (entries logits))"
    unfolding rows using block_concat_blocks [OF len] by blast
qed

lemma forward_without_label_batched:
  assumes "shape (startphrase_vector gm self sp) = [B, D]"
    and "shape (ending_vector gm self e0) = [B, D]"
    and "shape (ending_vector gm self e1) = [B, D]"
    and "shape (ending_vector gm self e2) = [B, D]"
    and "shape (ending_vector gm self e3) = [B, D]"
  shows "\<exists>logits probabilities.
           forward gm self sp e0 e1 e2 e3 None
             = Inr ([''logits'' \<mapsto> TensorValue logits,
                     ''probabilities'' \<mapsto> TensorValue probabilities,
                     ''loss'' \<mapsto> NoneValue], self)
         \<and> shape logits = (if B = 1 then [4] else [B, 4])
         \<and> shape probabilities = shape logits
         \<and> (\<forall>b<B. sum_list (block 4 b (entries probabilities)) = 1)"
proof -
  from assms obtain logits where logits: "forward_logits gm self sp e0 e1 e2 e3 = Inr logits"
    and shape: "shape logits = (if B = 1 then [4] else [B, 4])"
    and len: "length (entries logits) = B * 4"
    by (rule forward_logits_batched)
  have "sum_list (block 4 b (entries (softmax_last logits))) = 1" if "b < B" for b
  proof -
    have "Suc b * 4 \<le> B * 4" using that by simp
    then have "block 4 b (entries logits) \<noteq> []"
      using len by (auto simp: length_block simp del: mult_Suc dest!: arg_cong [where f = length])
    then show ?thesis
      using softmax_last_rows(2) [OF shape len] that
      by (simp add: softmax_vec_sums_to_one)
  qed
  moreover have "forward gm self sp e0 e1 e2 e3 None
             = Inr ([''logits'' \<mapsto> TensorValue logits,
                     ''probabilities'' \<mapsto> TensorValue (softmax_last logits),
                     ''loss'' \<mapsto> NoneValue], self)"
    using logits by (simp add: forward_def)
  ultimately show ?thesis
    using shape softmax_last_rows(1) [OF shape len] by blast
qed

lemma xentropy_batched:
  assumes shape: "shape logits = [B, 4]" and len: "length (entries logits) = B * 4"
    and B: "0 < B"
    and label: "shape label = [B]" "length (entries label) = B"
      "\<forall>g\<in>set (entries label). 0 \<le> g \<and> g < 4"
  shows "\<exists>loss. xentropy logits (view_flat label) = Inr (Finite loss) \<and> 0 \<le> loss"
proof -
  let ?t = "view_flat label"
  have t: "shape ?t = [B]" "entries ?t = entries label"
    using label(1) by (simp_all add: view_flat_def numel_def)
  have ok: "\<not> list_ex (\<lambda>g. g \<noteq> - 100 \<and> (g < 0 \<or> int 4 \<le> g)) (take B (entries ?t))"
    using label(3) by (auto simp: list_ex_iff t dest!: in_set_takeD)
  have "entries label ! i \<noteq> - 100" if "i < B" for i
  proof -
    from that label(2) have "entries label ! i \<in> set (entries label)" by simp
    with label(3) have "0 \<le> entries label ! i" by blast
    then show ?thesis by simp
  qed
  then have kept: "filter (\<lambda>i. entries ?t ! i \<noteq> - 100) [0..<B] = [0..<B]"
    by (simp add: filter_id_conv t)
  have nonempty: "[0..<B] \<noteq> []" using B by simp
  let ?loss = "(\<Sum>i\<leftarrow>[0..<B]. nll_row (block 4 i (entries logits)) (entries ?t ! i)) / real B"
  have result: "xentropy logits ?t = Inr (Finite ?loss)"
    using ok kept nonempty by (simp add: xentropy_def shape t(1) Let_def)
  have "0 \<le> nll_row (block 4 i (entries logits)) (entries ?t ! i)" if "i < B" for i
  proof (rule nll_row_nonneg)
    from that label(2,3) have g: "0 \<le> entries label ! i" "entries label ! i < 4"
      by (auto dest!: bspec [of _ _ "entries label ! i"])
    then show "0 \<le> entries ?t ! i" by (simp add: t)
    have "Suc i * 4 \<le> B * 4" using that by simp
    then have "length (block 4 i (entries logits)) = 4"
      using len by (simp add: length_block del: mult_Suc)
    with g show "nat (entries ?t ! i) < length (block 4 i (entries logits))"
      by (simp add: t)
  qed
  then have "0 \<le> (\<Sum>i\<leftarrow>[0..<B]. nll_row (block 4 i (entries logits)) (entries ?t ! i))"
    by (intro sum_list_nonneg) auto
  then have "0 \<le> ?loss" by simp
  with result show ?thesis by blast
qed

lemma accuracy_call_batched:
  assumes "shape logits = [B, 4]" "shape label = [B]"
    and "\<forall>g\<in>set (entries label). 0 \<le> g \<and> g < 4"
  shows "\<exists>acc'. accuracy_call acc logits label = Inr acc'
           \<and> total_count acc' = total_count acc + B"
  using assms by (auto simp: accuracy_call_def numel_def list_ex_iff)

lemma forward_with_labels_batched:
  assumes "shape (startphrase_vector gm self sp) = [B, D]"
    and "shape (ending_vector gm self e0) = [B, D]"
    and "shape (ending_vector gm self e1) = [B, D]"
    and "shape (ending_vector gm self e2) = [B, D]"
    and "shape (ending_vector gm self e3) = [B, D]"
    and B: "1 < B"
    and label: "shape label = [B]" "length (entries label) = B"
      "\<forall>g\<in>set (entries label). 0 \<le> g \<and> g < 4"
  shows "\<exists>logits loss acc.
           forward gm self sp e0 e1 e2 e3 (Some label)
             = Inr ([''logits'' \<mapsto> TensorValue logits,
                     ''probabilities'' \<mapsto> TensorValue (softmax_last logits),
                     ''loss'' \<mapsto> LossValue (Finite loss)], self\<lparr>accuracy := acc\<rparr>)
         \<and> xentropy logits (view_flat label) = Inr (Finite loss)
         \<and> 0 \<le> loss
         \<and> total_count acc = total_count (accuracy self) + B"
proof -
  from assms(1-5) obtain logits where logits: "forward_logits gm self sp e0 e1 e2 e3 = Inr logits"
    and "shape logits = (if B = 1 then [4] else [B, 4])"
    and len: "length (entries logits) = B * 4"
    by (rule forward_logits_batched)
  with B have shape: "shape logits = [B, 4]" by simp
  from B have "0 < B" by simp
  from xentropy_batched [OF shape len this label] obtain loss where
    loss: "xentropy logits (view_flat label) = Inr (Finite loss)" "0 \<le> loss"
    by blast
  from accuracy_call_batched [OF shape label(1,3), of "accuracy self"] obtain acc where
    acc: "accuracy_call (accuracy self) logits label = Inr acc"
      "total_count acc = total_count (accuracy self) + B"
    by blast
  have "forward gm self sp e0 e1 e2 e3 (Some label)
             = Inr ([''logits'' \<mapsto> TensorValue logits,
                     ''probabilities'' \<mapsto> TensorValue (softmax_last logits),
                     ''loss'' \<mapsto> LossValue (Finite loss)], self\<lparr>accuracy := acc\<rparr>)"
    using logits loss(1) acc(1) by (simp add: forward_def)
  with loss acc(2) show ?thesis by blast
qed

subsection \<open>The forward pass\<close>



text \<open>
  C1 fails on a batch of one example. The squeeze removes the batch axis with the axis
  of size one the product leaves: the logits and the probabilities of a batch of one
  have the shape \<open>(4)\<close>, where the documentation of \<open>forward\<close>
  and the claim say \<open>(1, 4)\<close>.
\<close>

theorem forward_batch_of_one_has_no_batch_axis:
  "forward token_mask bag_model [[2, 3]] [[3]] [[4]] [[5]] [[6]] None
     = Inr ([''logits'' \<mapsto> TensorValue \<lparr>shape = [4], entries = [17, 22, 27, 32]\<rparr>,
             ''probabilities'' \<mapsto>
                TensorValue \<lparr>shape = [4], entries = softmax_vec [17, 22, 27, 32]\<rparr>,
             ''loss'' \<mapsto> NoneValue],
            bag_model)"
  unfolding forward_def logits_one
  by (simp add: softmax_last_def block_def)

text \<open>
  C6 fails on a batch of one example with its label, by the same squeeze: the loss
  refuses logits of shape \<open>(4)\<close> with a target of shape \<open>(1)\<close>,
  the forward pass raises, and no loss is returned although a label was supplied.
\<close>

theorem forward_batch_of_one_with_label_raises:
  "forward token_mask bag_model [[2, 3]] [[3]] [[4]] [[5]] [[6]]
     (Some \<lparr>shape = [1], entries = [3]\<rparr>) = Inl RuntimeError"
  unfolding forward_def logits_one
  by (simp add: xentropy_def)

text \<open>
  C7. A forward pass that returns leaves every attribute of the model but the accuracy
  metric as it was, and the metric too when no label is given; it never lowers the
  counters of the metric; the same call on the model it leaves returns the same
  outputs. Reading the metric without reset leaves the model as it is, reading it with
  reset sets both counters to zero.
\<close>

theorem forward_touches_only_the_accuracy:
  assumes "forward gm self sp e0 e1 e2 e3 label = Inr (out, self')"
  shows "self' = self\<lparr>accuracy := accuracy self'\<rparr>
       \<and> (label = None \<longrightarrow> self' = self)
       \<and> total_count (accuracy self) \<le> total_count (accuracy self')
       \<and> correct_count (accuracy self) \<le> correct_count (accuracy self')
       \<and> (\<exists>self''. forward gm self' sp e0 e1 e2 e3 label = Inr (out, self''))
       \<and> snd (get_metrics self' False) = self'
       \<and> snd (get_metrics self' True) = self'\<lparr>accuracy := \<lparr>correct_count = 0, total_count = 0\<rparr>\<rparr>"
proof (cases label)
  case None
  with assms have "self' = self"
    by (auto simp: forward_def Let_def split: sum.splits)
  with assms None show ?thesis
    by (auto simp: get_metrics_def get_metric_def accuracy_reset_def Let_def)
next
  case (Some l)
  from assms obtain logits loss acc where
    logits: "forward_logits gm self sp e0 e1 e2 e3 = Inr logits"
    and loss: "xentropy logits (view_flat l) = Inr loss"
    and acc: "accuracy_call (accuracy self) logits l = Inr acc"
    and out: "out = [''logits'' \<mapsto> TensorValue logits,
                     ''probabilities'' \<mapsto> TensorValue (softmax_last logits),
                     ''loss'' \<mapsto> LossValue loss]"
    and self': "self' = self\<lparr>accuracy := acc\<rparr>"
    using Some by (auto simp: forward_def Let_def split: sum.splits)
  from accuracy_call_any_counters [OF acc, of acc] obtain acc'' where
    "accuracy_call acc logits l = Inr acc''" by blast
  then have again: "forward gm self' sp e0 e1 e2 e3 label = Inr (out, self'\<lparr>accuracy := acc''\<rparr>)"
    using logits loss
    by (simp add: forward_def self' Some out forward_logits_accuracy_update)
  from self' accuracy_call_counts [OF acc] again show ?thesis
    by (auto simp: Some get_metrics_def get_metric_def accuracy_reset_def Let_def)
qed

theorem forward_touches_only_the_accuracy_witness:
  "forward token_mask bag_model [[2, 3], [4, 0]] [[3], [2]] [[4], [3]] [[5], [4]] [[6], [5]]
     (Some \<lparr>shape = [2], entries = [3, 0]\<rparr>)
   = Inr ([''logits'' \<mapsto> TensorValue \<lparr>shape = [2, 4], entries = [17, 22, 27, 32, 9, 13, 17, 21]\<rparr>,
           ''probabilities'' \<mapsto>
              TensorValue (softmax_last \<lparr>shape = [2, 4], entries = [17, 22, 27, 32, 9, 13, 17, 21]\<rparr>),
           ''loss'' \<mapsto>
              LossValue (Finite ((nll_row [17, 22, 27, 32] 3 + nll_row [9, 13, 17, 21] 0) / 2))],
          bag_model\<lparr>accuracy := \<lparr>correct_count = 1, total_count = 2\<rparr>\<rparr>)
   \<and> total_count (accuracy bag_model) = 0
   \<and> vocab (bag_model\<lparr>accuracy := \<lparr>correct_count = 1, total_count = 2\<rparr>\<rparr>) = vocab bag_model
   \<and> similarity (bag_model\<lparr>accuracy := \<lparr>correct_count = 1, total_count = 2\<rparr>\<rparr>) = similarity bag_model
   \<and> (\<exists>self''.
         forward token_mask (bag_model\<lparr>accuracy := \<lparr>correct_count = 1, total_count = 2\<rparr>\<rparr>)
           [[2, 3], [4, 0]] [[3], [2]] [[4], [3]] [[5], [4]] [[6], [5]]
           (Some \<lparr>shape = [2], entries = [3, 0]\<rparr>)
         = Inr ([''logits'' \<mapsto> TensorValue \<lparr>shape = [2, 4], entries = [17, 22, 27, 32, 9, 13, 17, 21]\<rparr>,
                 ''probabilities'' \<mapsto>
                    TensorValue (softmax_last \<lparr>shape = [2, 4], entries = [17, 22, 27, 32, 9, 13, 17, 21]\<rparr>),
                 ''loss'' \<mapsto>
                    LossValue (Finite ((nll_row [17, 22, 27, 32] 3 + nll_row [9, 13, 17, 21] 0) / 2))],
                self''))
   \<and> accuracy (snd (get_metrics (bag_model\<lparr>accuracy := \<lparr>correct_count = 1, total_count = 2\<rparr>\<rparr>) True))
       = \<lparr>correct_count = 0, total_count = 0\<rparr>"
  using forward_touches_only_the_accuracy [OF forward_two] forward_two
  by (simp add: bag_model_def)

text \<open>
  C8. Two models constructed from the same arguments but for the similarity function,
  with an initializer that treats the other attributes the same whatever the
  similarity is, give the same outputs (or raise the same error) on every batch: the
  forward pass never reads the similarity attribute, the scores are the products
  computed by \<open>bmm\<close>.
\<close>

theorem similarity_never_used:
  assumes "\<forall>m s. \<exists>s'. initializer (m\<lparr>similarity := s\<rparr>) = (initializer m)\<lparr>similarity := s'\<rparr>"
    and "init v tfe sp_enc end_enc similarity1 initializer reg = Inr model1"
    and "init v tfe sp_enc end_enc similarity2 initializer reg = Inr model2"
  shows "map_sum id fst (forward gm model1 sp e0 e1 e2 e3 label)
         = map_sum id fst (forward gm model2 sp e0 e1 e2 e3 label)"
proof -
  let ?fresh = "\<lambda>s. \<lparr>vocab = v, regularizer = reg, text_field_embedder = tfe,
                     startphrase_encoder = sp_enc, ending_encoder = end_enc,
                     similarity = s, accuracy = \<lparr>correct_count = 0, total_count = 0\<rparr>\<rparr>"
  from assms(2) have m1: "model1 = initializer (?fresh similarity1)"
    by (auto simp: init_def check_dimensions_match_def split: if_splits)
  from assms(3) have m2: "model2 = initializer (?fresh similarity2)"
    by (auto simp: init_def check_dimensions_match_def split: if_splits)
  have "?fresh similarity2 = (?fresh similarity1)\<lparr>similarity := similarity2\<rparr>"
    by simp
  with assms(1) m1 m2 obtain s' where "model2 = model1\<lparr>similarity := s'\<rparr>"
    by metis
  then show ?thesis
    by (simp add: forward_ignores_similarity sum.map_comp comp_def split_def
             cong: sum.map_cong)
qed

theorem similarity_never_used_witness:
  "init () bag_embedder bag_encoder bag_encoder ''cosine'' id None = Inr bag_model
   \<and> init () bag_embedder bag_encoder bag_encoder ''bilinear'' id None
       = Inr (bag_model\<lparr>similarity := ''bilinear''\<rparr>)
   \<and> map_sum id fst
         (forward token_mask bag_model [[2, 3], [4, 0]] [[3], [2]] [[4], [3]] [[5], [4]] [[6], [5]]
            (Some \<lparr>shape = [2], entries = [3, 0]\<rparr>))
       = map_sum id fst
           (forward token_mask (bag_model\<lparr>similarity := ''bilinear''\<rparr>)
              [[2, 3], [4, 0]] [[3], [2]] [[4], [3]] [[5], [4]] [[6], [5]]
              (Some \<lparr>shape = [2], entries = [3, 0]\<rparr>))"
proof -
  have modular: "\<forall>m s. \<exists>s'. id (m\<lparr>similarity := s\<rparr>)
                   = (id (m :: (unit, unit, nat list list, bool list list, string) swag_model))
                       \<lparr>similarity := (s' :: string)\<rparr>"
    by auto
  have one: "init () bag_embedder bag_encoder bag_encoder ''cosine'' id None = Inr bag_model"
    by (simp add: init_def check_dimensions_match_def bag_model_def bag_embedder_def
          bag_encoder_def)
  have two: "init () bag_embedder bag_encoder bag_encoder ''bilinear'' id None
               = Inr (bag_model\<lparr>similarity := ''bilinear''\<rparr>)"
    by (simp add: init_def check_dimensions_match_def bag_model_def bag_embedder_def
          bag_encoder_def)
  from similarity_never_used [OF modular one two] one two show ?thesis
    by blast
qed

text \<open>
  C10. With encoders that return one vector per example, the forward pass without a
  label returns a dictionary of exactly the three keys logits, probabilities and loss,
  in which loss is present and holds \<^verbatim>\<open>None\<close>; and whatever the label,
  a dictionary the forward pass returns has exactly these three keys.
\<close>

theorem forward_returns_three_keys:
  assumes "shape (startphrase_vector gm self sp) = [B, D]"
    and "shape (ending_vector gm self e0) = [B, D]"
    and "shape (ending_vector gm self e1) = [B, D]"
    and "shape (ending_vector gm self e2) = [B, D]"
    and "shape (ending_vector gm self e3) = [B, D]"
  shows "(\<exists>out. forward gm self sp e0 e1 e2 e3 None = Inr (out, self)
            \<and> dom out = {''logits'', ''probabilities'', ''loss''}
            \<and> out ''loss'' = Some NoneValue)
       \<and> (\<forall>label out self'. forward gm self sp e0 e1 e2 e3 label = Inr (out, self')
            \<longrightarrow> dom out = {''logits'', ''probabilities'', ''loss''})"
proof -
  from forward_logits_value [OF assms] obtain logits where
    "forward_logits gm self sp e0 e1 e2 e3 = Inr logits"
    by blast
  then have "forward gm self sp e0 e1 e2 e3 None
        = Inr ([''logits'' \<mapsto> TensorValue logits,
                ''probabilities'' \<mapsto> TensorValue (softmax_last logits),
                ''loss'' \<mapsto> NoneValue], self)"
    by (simp add: forward_def)
  moreover have "dom [''logits'' \<mapsto> TensorValue logits,
                ''probabilities'' \<mapsto> TensorValue (softmax_last logits),
                ''loss'' \<mapsto> NoneValue] = {''logits'', ''probabilities'', ''loss''}"
    by auto
  ultimately show ?thesis
    using forward_dom [of gm self sp e0 e1 e2 e3] by auto
qed

theorem forward_returns_three_keys_witness:
  "shape (startphrase_vector token_mask bag_model [[2, 3]]) = [1, 2]
   \<and> shape (ending_vector token_mask bag_model [[3]]) = [1, 2]
   \<and> shape (ending_vector token_mask bag_model [[4]]) = [1, 2]
   \<and> shape (ending_vector token_mask bag_model [[5]]) = [1, 2]
   \<and> shape (ending_vector token_mask bag_model [[6]]) = [1, 2]
   \<and> (\<exists>out. forward token_mask bag_model [[2, 3]] [[3]] [[4]] [[5]] [[6]] None
                = Inr (out, bag_model)
            \<and> dom out = {''logits'', ''probabilities'', ''loss''}
            \<and> out ''loss'' = Some NoneValue)"
proof -
  have shapes: "shape (startphrase_vector token_mask bag_model [[2, 3]]) = [1, 2]"
    "shape (ending_vector token_mask bag_model [[3]]) = [1, 2]"
    "shape (ending_vector token_mask bag_model [[4]]) = [1, 2]"
    "shape (ending_vector token_mask bag_model [[5]]) = [1, 2]"
    "shape (ending_vector token_mask bag_model [[6]]) = [1, 2]"
    by (simp_all add: bag_eval)
  from forward_returns_three_keys [OF shapes] shapes show ?thesis
    by blast
qed

end
